theory Spec2Isabelle
  imports Complex_Main
begin

section \<open>Common data\<close>

text \<open>
  A thrown JavaScript value. An \<open>async\<close> function whose promise rejects is modelled as
  returning \<open>Inl\<close> of the thrown value, one that resolves as returning \<open>Inr\<close>.
\<close>

datatype error = Error string

text \<open>JavaScript numbers (VMAF scores, delays) are modelled as reals.\<close>

section \<open>types.ts\<close>

text \<open>
  Of \<open>TaskData\<close>, the fields the verifier reads. An optional field is an \<open>option\<close>;
  a string is falsy when it is empty.
\<close>

record TaskData =
  task_id :: string
  source_ipfs :: string
  result_ipfs :: "string option"
  keyframe_timestamps :: "string list option"
  selected_gops :: "string list option"

text \<open>
  Modelled from the spec: the declaration of \<open>TaskDataWithRole\<close> is not among the source
  files. A queued task is the task together with its role flag (primary or supplemental);
  these are the two fields that \<open>pollTasks\<close> and \<open>processNextTask\<close> read.
\<close>

record TaskDataWithRole =
  task :: TaskData
  is_supplemental_verifier :: bool

record VideoSpecification =
  codec :: string
  resolution :: string
  bitrate :: real
  framerate :: real

record GopScore =
  timestamp :: string
  vmaf_score :: real
  hash :: string

text \<open>
  \<open>isSupplementary\<close> is the property that \<open>processNextTask\<close> sets on the proof of a
  supplemental verifier; it is absent (falsy) on every other proof.
\<close>

record VerifierQosProof =
  proof_id :: string
  proof_task_id :: string
  verifier_id :: string
  proof_timestamp :: int
  video_specs :: VideoSpecification
  video_score :: real
  gop_scores :: "GopScore list"
  audio_score :: real
  sync_score :: real
  signature :: string
  isSupplementary :: bool

section \<open>committee-client.ts\<close>

record CommitteeMember =
  account_id :: string
  ip_address :: string
  port :: nat
  is_leader :: bool

text \<open>
  An HTTP response as the client reads it: the status code and the body.
  \<open>data = None\<close> stands for a body that JavaScript treats as falsy (absent, null, empty).
\<close>

record response =
  status :: nat
  data :: "string option"

text \<open>
  The body of a proof request, as \<open>convertToApiProofFormat\<close> builds it. A field whose
  name is used for something else in this theory carries a prefix here.
\<close>

record ApiGopScore =
  gop_timestamp :: string
  gop_vmafScore :: real
  gop_hash :: string

record VideoQualityData =
  api_overallScore :: real
  api_gopScores :: "ApiGopScore list"

record ApiProof =
  api_taskId :: string
  api_verifierId :: string
  api_timestamp :: int
  mediaSpecs :: VideoSpecification
  videoQualityData :: VideoQualityData
  api_signature :: string

record CommitteeClient =
  committeeMembers :: "CommitteeMember list"
  lastMembersUpdateTime :: int

definition MEMBERS_UPDATE_INTERVAL :: int where
  "MEMBERS_UPDATE_INTERVAL = 5 * 60 * 1000"

subsection \<open>withRetry\<close>

text \<open>
  \<open>withRetry(operation, maxRetries, initialDelay)\<close>: the \<open>while (true)\<close> loop with its two
  local variables \<open>retries\<close> and \<open>delay\<close>. The operation is given the number of earlier
  invocations (which is \<open>retries\<close>) and the state it may mutate; what it answers on each
  invocation is up to the outside world. The wait between two invocations changes nothing
  in the state.
\<close>

function withRetry_loop ::
  "(nat \<Rightarrow> 's \<Rightarrow> (error + 'a) \<times> 's) \<Rightarrow> nat \<Rightarrow> nat \<Rightarrow> real \<Rightarrow> 's \<Rightarrow> (error + 'a) \<times> 's" where
  "withRetry_loop operation maxRetries retries delay s =
     (case operation retries s of
        (Inr v, s') \<Rightarrow> (Inr v, s')
      | (Inl e, s') \<Rightarrow>
          (if retries + 1 \<ge> maxRetries then (Inl e, s')
           else withRetry_loop operation maxRetries (retries + 1) (min (delay * 1.5) 30000) s'))"
  by pat_completeness auto
termination
  by (relation "measure (\<lambda>(operation, maxRetries, retries, delay, s). maxRetries - retries)") auto

definition withRetry ::
  "(nat \<Rightarrow> 's \<Rightarrow> (error + 'a) \<times> 's) \<Rightarrow> nat \<Rightarrow> real \<Rightarrow> 's \<Rightarrow> (error + 'a) \<times> 's" where
  "withRetry operation maxRetries initialDelay s =
     withRetry_loop operation maxRetries 0 initialDelay s"

text \<open>\<open>promise.catch(handler)\<close> with a handler that returns a value.\<close>

definition catch :: "(error + 'a) \<times> 's \<Rightarrow> (error \<Rightarrow> 'a) \<Rightarrow> (error + 'a) \<times> 's" where
  "catch r handler = (case r of (Inl e, s) \<Rightarrow> (Inr (handler e), s) | (Inr v, s) \<Rightarrow> (Inr v, s))"

subsection \<open>updateCommitteeMembers\<close>

definition fixedMembers :: "CommitteeMember list" where
  "fixedMembers =
     [\<lparr>account_id = ''leader'', ip_address = ''10.24.136.124'', port = 9000, is_leader = True\<rparr>,
      \<lparr>account_id = ''follower1'', ip_address = ''10.24.216.33'', port = 9000, is_leader = False\<rparr>,
      \<lparr>account_id = ''follower2'', ip_address = ''10.24.198.225'', port = 9000, is_leader = False\<rparr>,
      \<lparr>account_id = ''follower3'', ip_address = ''10.24.161.186'', port = 9000, is_leader = False\<rparr>]"

text \<open>\<open>now\<close> is the reading of \<open>Date.now()\<close>.\<close>

definition updateCommitteeMembers :: "int \<Rightarrow> CommitteeClient \<Rightarrow> CommitteeClient" where
  "updateCommitteeMembers now c =
     (if now - lastMembersUpdateTime c < MEMBERS_UPDATE_INTERVAL \<and> length (committeeMembers c) > 0
      then c
      else c\<lparr>committeeMembers := fixedMembers, lastMembersUpdateTime := now\<rparr>)"

subsection \<open>convertToApiProofFormat\<close>

definition convertToApiProofFormat :: "VerifierQosProof \<Rightarrow> ApiProof" where
  "convertToApiProofFormat qosProof =
     \<lparr>api_taskId = proof_task_id qosProof,
      api_verifierId = verifier_id qosProof,
      api_timestamp = proof_timestamp qosProof,
      mediaSpecs =
        \<lparr>codec = codec (video_specs qosProof),
         resolution = resolution (video_specs qosProof),
         bitrate = bitrate (video_specs qosProof),
         framerate = framerate (video_specs qosProof)\<rparr>,
      videoQualityData =
        \<lparr>api_overallScore = video_score qosProof,
         api_gopScores = map (\<lambda>gop. \<lparr>gop_timestamp = timestamp gop, gop_vmafScore = vmaf_score gop,
                                    gop_hash = hash gop\<rparr>) (gop_scores qosProof)\<rparr>,
      api_signature = signature qosProof\<rparr>"

subsection \<open>sendProofToMember and sendProofToCommittee\<close>

text \<open>
  The network seen by one fan-out: \<open>post m body k\<close> is the outcome of the \<open>k\<close>-th POST
  (counted from 0) of \<open>body\<close> to member \<open>m\<close>'s proof URL; \<open>Inl\<close> is a request that throws
  (timeout, connection error, a status the HTTP client rejects).
\<close>

type_synonym post_oracle = "CommitteeMember \<Rightarrow> ApiProof \<Rightarrow> nat \<Rightarrow> error + response"

definition sendProofToMember_operation ::
  "post_oracle \<Rightarrow> CommitteeMember \<Rightarrow> ApiProof \<Rightarrow> nat \<Rightarrow> unit \<Rightarrow> (error + bool) \<times> unit" where
  "sendProofToMember_operation post member apiProof k u =
     (case post member apiProof k of
        Inl e \<Rightarrow> (Inl e, u)
      | Inr resp \<Rightarrow>
          (if status resp = 202 then (Inr True, u)
           else (Inl (Error ''send failed, status code''), u)))"

definition sendProofToMember :: "post_oracle \<Rightarrow> CommitteeMember \<Rightarrow> ApiProof \<Rightarrow> error + bool" where
  "sendProofToMember post member apiProof =
     fst (catch (withRetry (sendProofToMember_operation post member apiProof) 2 1000 ()) (\<lambda>e. False))"

text \<open>The array \<open>results\<close> of \<open>Promise.allSettled(sendPromises)\<close>: one settled outcome per member.\<close>

definition sendProofToCommittee_results ::
  "post_oracle \<Rightarrow> CommitteeMember list \<Rightarrow> ApiProof \<Rightarrow> (error + bool) list" where
  "sendProofToCommittee_results post members apiProof =
     map (\<lambda>member. sendProofToMember post member apiProof) members"

definition successCount :: "(error + bool) list \<Rightarrow> nat" where
  "successCount results =
     length (filter (\<lambda>r. case r of Inr v \<Rightarrow> v | Inl e \<Rightarrow> False) results)"

text \<open>
  Nothing inside the \<open>try\<close> block of \<open>sendProofToCommittee\<close> throws (every member's
  promise settles), so its \<open>catch\<close> has no case here.
\<close>

definition sendProofToCommittee ::
  "int \<Rightarrow> post_oracle \<Rightarrow> VerifierQosProof \<Rightarrow> CommitteeClient \<Rightarrow> bool \<times> CommitteeClient" where
  "sendProofToCommittee now post qosProof c =
     (let c' = updateCommitteeMembers now c in
      if length (committeeMembers c') = 0 then (False, c')
      else
        let apiProof = convertToApiProofFormat qosProof;
            results = sendProofToCommittee_results post (committeeMembers c') apiProof;
            successCount = successCount results
        in (successCount > 0, c'))"

subsection \<open>getTaskStatusFromMember and getTaskStatus\<close>

text \<open>
  The network seen by one status query: \<open>get taskId m k\<close> is the outcome of the \<open>k\<close>-th GET
  (counted from 0) of \<open>/proof/taskId/status\<close> at member \<open>m\<close>.
\<close>

type_synonym get_oracle = "string \<Rightarrow> CommitteeMember \<Rightarrow> nat \<Rightarrow> error + response"

definition getTaskStatusFromMember_operation ::
  "get_oracle \<Rightarrow> CommitteeMember \<Rightarrow> string \<Rightarrow> nat \<Rightarrow> unit \<Rightarrow> (error + string option) \<times> unit" where
  "getTaskStatusFromMember_operation get member taskId k u =
     (case get taskId member k of
        Inl e \<Rightarrow> (Inl e, u)
      | Inr resp \<Rightarrow>
          (if status resp = 200 \<and> data resp \<noteq> None then (Inr (data resp), u)
           else (Inl (Error ''get status failed, status code''), u)))"

text \<open>The result \<open>None\<close> is JavaScript's \<open>null\<close>.\<close>

definition getTaskStatusFromMember :: "get_oracle \<Rightarrow> CommitteeMember \<Rightarrow> string \<Rightarrow> error + string option" where
  "getTaskStatusFromMember get member taskId =
     fst (catch (withRetry (getTaskStatusFromMember_operation get member taskId) 2 1000 ()) (\<lambda>e. None))"

text \<open>
  The \<open>for\<close> loop over the members that are not the leader. \<open>Some taskStatus\<close>: the loop
  returned that status from the function; \<open>None\<close>: the loop ran to its end.
\<close>

fun getTaskStatus_followers :: "get_oracle \<Rightarrow> CommitteeMember list \<Rightarrow> string \<Rightarrow> string option" where
  "getTaskStatus_followers get [] taskId = None"
| "getTaskStatus_followers get (member # rest) taskId =
     (case getTaskStatusFromMember get member taskId of
        Inr (Some taskStatus) \<Rightarrow> Some taskStatus
      | Inr None \<Rightarrow> getTaskStatus_followers get rest taskId
      | Inl e \<Rightarrow> getTaskStatus_followers get rest taskId)"

text \<open>
  The operation that \<open>getTaskStatus\<close> hands to \<open>withRetry\<close>. On its \<open>n\<close>-th invocation
  \<open>Date.now()\<close> reads \<open>clock n\<close> and the network answers with \<open>get n\<close>.
\<close>

definition getTaskStatus_operation ::
  "(nat \<Rightarrow> int) \<Rightarrow> (nat \<Rightarrow> get_oracle) \<Rightarrow> string \<Rightarrow> nat \<Rightarrow> CommitteeClient
     \<Rightarrow> (error + string option) \<times> CommitteeClient" where
  "getTaskStatus_operation clock get taskId n c =
     (let c' = updateCommitteeMembers (clock n) c in
      if length (committeeMembers c') = 0 then (Inr None, c')
      else
        let leaderStatus =
              (case find is_leader (committeeMembers c') of
                 Some leader \<Rightarrow>
                   (case getTaskStatusFromMember (get n) leader taskId of
                      Inr (Some taskStatus) \<Rightarrow> Some taskStatus
                    | Inr None \<Rightarrow> None
                    | Inl e \<Rightarrow> None)
               | None \<Rightarrow> None)
        in case leaderStatus of
             Some taskStatus \<Rightarrow> (Inr (Some taskStatus), c')
           | None \<Rightarrow>
               (case getTaskStatus_followers (get n)
                       (filter (\<lambda>m. \<not> is_leader m) (committeeMembers c')) taskId of
                  Some taskStatus \<Rightarrow> (Inr (Some taskStatus), c')
                | None \<Rightarrow> (Inl (Error ''no committee member returned the task status''), c')))"

definition getTaskStatus ::
  "(nat \<Rightarrow> int) \<Rightarrow> (nat \<Rightarrow> get_oracle) \<Rightarrow> string \<Rightarrow> CommitteeClient
     \<Rightarrow> (error + string option) \<times> CommitteeClient" where
  "getTaskStatus clock get taskId c =
     catch (withRetry (getTaskStatus_operation clock get taskId) 2 1000 c) (\<lambda>e. None)"

subsection \<open>sendSupplementaryProofToMember and sendSupplementaryProof\<close>



section \<open>GopAnalyzer.ts\<close>

text \<open>
  A JavaScript \<open>Map\<close>, in insertion order: \<open>set\<close> overwrites the value of a key that is
  present and appends a new key otherwise. The keys are what \<open>timestamps[i]\<close> evaluates to:
  \<open>Some t\<close> for an element, \<open>None\<close> for \<open>undefined\<close>.
\<close>

type_synonym gop_map = "(string option \<times> string) list"

fun map_set :: "'k \<Rightarrow> 'v \<Rightarrow> ('k \<times> 'v) list \<Rightarrow> ('k \<times> 'v) list" where
  "map_set k v [] = [(k, v)]"
| "map_set k v ((k', v') # m) = (if k' = k then (k, v) # m else (k', v') # map_set k v m)"

definition map_get :: "('k \<times> 'v) list \<Rightarrow> 'k \<Rightarrow> 'v option" where
  "map_get m k = map_of m k"

text \<open>\<open>xs[i]\<close>: \<open>undefined\<close> outside the array.\<close>

definition js_index :: "'a list \<Rightarrow> int \<Rightarrow> 'a option" where
  "js_index xs i = (if 0 \<le> i \<and> i < int (length xs) then Some (xs ! nat i) else None)"

text \<open>
  The media tool and the file system, as \<open>splitVideoIntoGops\<close> uses them:
  \<open>segmentPath video i\<close> is the path \<open>gopDir/segment_i.ext\<close> built for the video;
  \<open>execSegment video timestamps\<close> is the run of the ffmpeg segment command, which either
  throws or leaves a file system in which \<open>existsSync\<close> answers as the returned predicate.
\<close>

record media_tool =
  segmentPath :: "string \<Rightarrow> nat \<Rightarrow> string"
  execSegment :: "string \<Rightarrow> string list \<Rightarrow> error + (string \<Rightarrow> bool)"

text \<open>The loop \<open>for (let i = 1; i < timestamps.length; i++)\<close>, over its index values.\<close>

fun splitVideoIntoGops_middle ::
  "(nat \<Rightarrow> string) \<Rightarrow> (string \<Rightarrow> bool) \<Rightarrow> string list \<Rightarrow> nat list \<Rightarrow> gop_map \<Rightarrow> gop_map" where
  "splitVideoIntoGops_middle path existsSync timestamps [] gopMap = gopMap"
| "splitVideoIntoGops_middle path existsSync timestamps (i # is) gopMap =
     splitVideoIntoGops_middle path existsSync timestamps is
       (if existsSync (path i) then map_set (js_index timestamps (int i)) (path i) gopMap else gopMap)"

definition splitVideoIntoGops :: "media_tool \<Rightarrow> string \<Rightarrow> string list \<Rightarrow> error + gop_map" where
  "splitVideoIntoGops tool videoPath timestamps =
     (case execSegment tool videoPath timestamps of
        Inl e \<Rightarrow> Inl e
      | Inr existsSync \<Rightarrow>
          let path = segmentPath tool videoPath;
              gopMap0 = [];
              firstGopPath = path 0;
              gopMap1 = (if existsSync firstGopPath
                         then map_set (js_index timestamps 0) firstGopPath gopMap0 else gopMap0);
              gopMap2 = splitVideoIntoGops_middle path existsSync timestamps
                          [1..<length timestamps] gopMap1;
              lastSegmentIdx = length timestamps;
              lastSegmentPath = path lastSegmentIdx;
              gopMap3 = (if existsSync lastSegmentPath
                         then map_set (js_index timestamps (int (length timestamps) - 1))
                                lastSegmentPath gopMap2
                         else gopMap2)
          in Inr gopMap3)"

section \<open>MediaQualityEvaluator.ts\<close>

text \<open>
  One run of the VMAF command on a pair of segments, step by step as the \<open>try\<close> block meets
  it: the command itself, whether the output file exists afterwards, reading and parsing
  it (\<open>Inr None\<close>: the parsed document has no \<open>pooled_metrics.vmaf.mean\<close>), removing it.
\<close>

record vmaf_run =
  execAsync :: "error + unit"
  outputExists :: bool
  parsedMean :: "error + real option"
  unlinkSync :: "error + unit"

definition calculateVmafScore_try :: "vmaf_run \<Rightarrow> error + real" where
  "calculateVmafScore_try run =
     (case execAsync run of
        Inl e \<Rightarrow> Inl e
      | Inr u \<Rightarrow>
          if \<not> outputExists run then Inl (Error ''VMAF evaluation failed, output file not found'')
          else
            (case parsedMean run of
               Inl e \<Rightarrow> Inl e
             | Inr mean \<Rightarrow>
                 let vmafScore = (case mean of Some x \<Rightarrow> (if x = 0 then 0 else x) | None \<Rightarrow> 0)
                 in (case unlinkSync run of Inl e \<Rightarrow> Inl e | Inr u' \<Rightarrow> Inr vmafScore)))"

text \<open>\<open>vmaf reference distorted\<close> is what the tool does when run on the two paths.\<close>

definition calculateVmafScore :: "(string \<Rightarrow> string \<Rightarrow> vmaf_run) \<Rightarrow> string \<Rightarrow> string \<Rightarrow> error + real" where
  "calculateVmafScore vmaf referenceGopPath distortedGopPath =
     (case calculateVmafScore_try (vmaf referenceGopPath distortedGopPath) of
        Inl e \<Rightarrow> Inr 0
      | Inr vmafScore \<Rightarrow> Inr vmafScore)"

definition getFixedAudioScore :: real where
  "getFixedAudioScore = 4.3"

definition getFixedSyncScore :: real where
  "getFixedSyncScore = 0"

section \<open>VerifierService.ts\<close>

text \<open>
  What the service does to the outside world, in the order it does it: files it creates
  (download, segmentation), the proof it hands to the ledger and to the committee, and the
  files it removes.
\<close>

datatype effect =
    Downloaded string string
  | SplitVideo string
  | SubmitVerifierProof VerifierQosProof
  | SendProofToCommittee VerifierQosProof
  | SendSupplementaryProof string VerifierQosProof
  | CleanupFile string
  | CleanupAllGops

text \<open>
  The collaborators of the service. Where an answer may change from one call to the next
  (the clock, the committee's network) it is indexed by the number of effects that
  happened before the call. \<open>cleanupFile\<close> is called without \<open>await\<close>, so what it does
  cannot reach the \<open>catch\<close> of \<open>verifyTask\<close>; \<open>cleanupAllGops\<close> is synchronous and can.
\<close>

record environment =
  verifierAccountId :: string
  downloadMediaFiles :: "string \<Rightarrow> string \<Rightarrow> string \<Rightarrow> error + string \<times> string"
  mediaTool :: media_tool
  vmaf :: "string \<Rightarrow> string \<Rightarrow> vmaf_run"
  calculateGopHash :: "string \<Rightarrow> error + string"
  getVideoSpecifications :: "string \<Rightarrow> error + VideoSpecification"
  dateNow :: "nat \<Rightarrow> int"
  generatePlaceholderSignature :: string
  submitVerifierProof :: "VerifierQosProof \<Rightarrow> bool"
  committeePost :: "nat \<Rightarrow> post_oracle"
  supplementaryPost :: "nat \<Rightarrow> string \<Rightarrow> post_oracle"
  cleanupAllGops :: "error + unit"

record dispatcher =
  isProcessingTask :: bool
  taskQueue :: "TaskDataWithRole list"

record VerifierService = dispatcher +
  committeeClient :: CommitteeClient
  effects :: "effect list"

definition perform :: "effect \<Rightarrow> VerifierService \<Rightarrow> VerifierService" where
  "perform e s = s\<lparr>effects := effects s @ [e]\<rparr>"

text \<open>Step 2: every selected GOP that \<open>allTimestamps\<close> does not include is pushed onto it.\<close>

fun ensureSelected :: "string list \<Rightarrow> string list \<Rightarrow> string list" where
  "ensureSelected allTimestamps [] = allTimestamps"
| "ensureSelected allTimestamps (gopTimestamp # rest) =
     ensureSelected
       (if gopTimestamp \<in> set allTimestamps then allTimestamps else allTimestamps @ [gopTimestamp])
       rest"

text \<open>Step 5: the loop over \<open>task.selected_gops\<close>, with \<open>gopScores\<close> as accumulator.\<close>

fun scoreGops ::
  "environment \<Rightarrow> gop_map \<Rightarrow> gop_map \<Rightarrow> string list \<Rightarrow> GopScore list \<Rightarrow> error + GopScore list" where
  "scoreGops env sourceGopMap resultGopMap [] gopScores = Inr gopScores"
| "scoreGops env sourceGopMap resultGopMap (gopTimestamp # rest) gopScores =
     (case (map_get sourceGopMap (Some gopTimestamp), map_get resultGopMap (Some gopTimestamp)) of
        (Some sourceGopPath, Some resultGopPath) \<Rightarrow>
          if sourceGopPath = [] \<or> resultGopPath = []
          then scoreGops env sourceGopMap resultGopMap rest gopScores
          else
            (case calculateVmafScore (vmaf env) sourceGopPath resultGopPath of
               Inl e \<Rightarrow> Inl e
             | Inr vmafScore \<Rightarrow>
                 (case calculateGopHash env resultGopPath of
                    Inl e \<Rightarrow> Inl e
                  | Inr gopHash \<Rightarrow>
                      scoreGops env sourceGopMap resultGopMap rest
                        (gopScores @
                           [\<lparr>timestamp = gopTimestamp, vmaf_score = vmafScore - 10, hash = gopHash\<rparr>])))
      | (None, _) \<Rightarrow> scoreGops env sourceGopMap resultGopMap rest gopScores
      | (_, None) \<Rightarrow> scoreGops env sourceGopMap resultGopMap rest gopScores)"

text \<open>Step 6: \<open>gopScores.reduce((sum, score) => sum + score.vmaf_score, 0) / gopScores.length\<close>.\<close>

definition overallVideoScore :: "GopScore list \<Rightarrow> real" where
  "overallVideoScore gopScores =
     foldl (\<lambda>sum score. sum + vmaf_score score) 0 gopScores / real (length gopScores)"

text \<open>Step 8: the proof object.\<close>

definition makeProof ::
  "environment \<Rightarrow> TaskData \<Rightarrow> int \<Rightarrow> VideoSpecification \<Rightarrow> GopScore list \<Rightarrow> VerifierQosProof" where
  "makeProof env t now videoSpecs gopScores =
     \<lparr>proof_id = ''proof-'' @ task_id t @ ''-'' @ verifierAccountId env,
      proof_task_id = task_id t,
      verifier_id = verifierAccountId env,
      proof_timestamp = now,
      video_specs = videoSpecs,
      video_score = overallVideoScore gopScores,
      gop_scores = gopScores,
      audio_score = getFixedAudioScore,
      sync_score = getFixedSyncScore,
      signature = generatePlaceholderSignature env,
      isSupplementary = False\<rparr>"

text \<open>Steps 9 to 11: ledger, committee, cleanup.\<close>

definition verifyTask_deliver ::
  "environment \<Rightarrow> VerifierQosProof \<Rightarrow> string \<Rightarrow> string \<Rightarrow> VerifierService
     \<Rightarrow> (error + VerifierQosProof) \<times> VerifierService" where
  "verifyTask_deliver env qosProof sourcePath resultPath s =
     (let s1 = perform (SubmitVerifierProof qosProof) s in
      if \<not> submitVerifierProof env qosProof
      then (Inl (Error ''submitting the verification result to the chain failed''), s1)
      else
        let n = length (effects s1);
            (sendResult, c') =
               sendProofToCommittee (dateNow env n) (committeePost env n) qosProof (committeeClient s1);
            s2 = perform (SendProofToCommittee qosProof) (s1\<lparr>committeeClient := c'\<rparr>);
            s3 = perform (CleanupFile sourcePath) s2;
            s4 = perform (CleanupFile resultPath) s3
        in (case cleanupAllGops env of
              Inl e \<Rightarrow> (Inl e, s4)
            | Inr u \<Rightarrow> (Inr qosProof, perform CleanupAllGops s4)))"

text \<open>Steps 4 to 8: segmentation of both files, scoring, the proof.\<close>

definition verifyTask_assess ::
  "environment \<Rightarrow> TaskData \<Rightarrow> string list \<Rightarrow> string list \<Rightarrow> string \<Rightarrow> string \<Rightarrow> VerifierService
     \<Rightarrow> (error + VerifierQosProof) \<times> VerifierService" where
  "verifyTask_assess env t selected allTimestamps sourcePath resultPath s =
     (case splitVideoIntoGops (mediaTool env) sourcePath allTimestamps of
        Inl e \<Rightarrow> (Inl e, s)
      | Inr sourceGopMap \<Rightarrow>
          let s1 = perform (SplitVideo sourcePath) s in
          (case splitVideoIntoGops (mediaTool env) resultPath allTimestamps of
             Inl e \<Rightarrow> (Inl e, s1)
           | Inr resultGopMap \<Rightarrow>
               let s2 = perform (SplitVideo resultPath) s1 in
               (case scoreGops env sourceGopMap resultGopMap selected [] of
                  Inl e \<Rightarrow> (Inl e, s2)
                | Inr gopScores \<Rightarrow>
                    if length gopScores = 0
                    then (Inl (Error ''no GOP was evaluated''), s2)
                    else
                      (case getVideoSpecifications env resultPath of
                         Inl e \<Rightarrow> (Inl e, s2)
                       | Inr videoSpecs \<Rightarrow>
                           verifyTask_deliver env
                             (makeProof env t (dateNow env (length (effects s2))) videoSpecs gopScores)
                             sourcePath resultPath s2))))"

text \<open>The \<open>try\<close> block of \<open>verifyTask\<close>, from step 1.\<close>

definition verifyTask_try ::
  "environment \<Rightarrow> TaskData \<Rightarrow> VerifierService \<Rightarrow> (error + VerifierQosProof) \<times> VerifierService" where
  "verifyTask_try env t s =
     (case (result_ipfs t, selected_gops t) of
        (Some resultIpfs, Some selected) \<Rightarrow>
          if source_ipfs t = [] \<or> resultIpfs = []
          then (Inl (Error ''task information incomplete''), s)
          else if length selected = 0
          then (Inl (Error ''task names no GOP''), s)
          else
            let allTimestamps =
                  ensureSelected
                    (case keyframe_timestamps t of Some ts \<Rightarrow> ts | None \<Rightarrow> selected) selected
            in (case downloadMediaFiles env (task_id t) (source_ipfs t) resultIpfs of
                  Inl e \<Rightarrow> (Inl e, s)
                | Inr (sourcePath, resultPath) \<Rightarrow>
                    verifyTask_assess env t selected allTimestamps sourcePath resultPath
                      (perform (Downloaded sourcePath resultPath) s))
      | (None, _) \<Rightarrow> (Inl (Error ''task information incomplete''), s)
      | (_, None) \<Rightarrow> (Inl (Error ''task information incomplete''), s))"

text \<open>\<open>verifyTask\<close>: the \<open>catch\<close> turns every error into \<open>null\<close> (\<open>None\<close>).\<close>

definition verifyTask ::
  "environment \<Rightarrow> TaskData \<Rightarrow> VerifierService \<Rightarrow> VerifierQosProof option \<times> VerifierService" where
  "verifyTask env t s =
     (case verifyTask_try env t s of
        (Inl e, s') \<Rightarrow> (None, s')
      | (Inr qosProof, s') \<Rightarrow> (Some qosProof, s'))"

subsection \<open>processNextTask\<close>

text \<open>
  \<open>processNextTask\<close> up to its first \<open>await\<close>: the guard, the busy flag, the
  \<open>shift\<close> of the queue. \<open>None\<close>: the call returned at the guard.
\<close>

definition processNextTask_begin ::
  "'a dispatcher_scheme \<Rightarrow> TaskDataWithRole option \<times> 'a dispatcher_scheme" where
  "processNextTask_begin s =
     (if isProcessingTask s \<or> length (taskQueue s) = 0 then (None, s)
      else
        (case taskQueue s of
           [] \<Rightarrow> (None, s)
         | taskWithRole # rest \<Rightarrow>
             (Some taskWithRole, s\<lparr>isProcessingTask := True, taskQueue := rest\<rparr>)))"

text \<open>
  The \<open>finally\<close> block: the flag is cleared, and the boolean tells whether
  \<open>setTimeout(() => this.processNextTask(), 0)\<close> was called.
\<close>

definition processNextTask_finally :: "'a dispatcher_scheme \<Rightarrow> 'a dispatcher_scheme \<times> bool" where
  "processNextTask_finally s =
     (let s' = s\<lparr>isProcessingTask := False\<rparr> in (s', length (taskQueue s') > 0))"



subsection \<open>pollTasks and the event loop\<close>

text \<open>The loop of \<open>pollTasks\<close> that adds the tasks not yet in the queue.\<close>

fun enqueue :: "TaskDataWithRole list \<Rightarrow> TaskDataWithRole list \<Rightarrow> TaskDataWithRole list" where
  "enqueue queue [] = queue"
| "enqueue queue (taskWithRole # rest) =
     enqueue
       (if list_ex (\<lambda>q. task_id (task q) = task_id (task taskWithRole)) queue then queue
        else queue @ [taskWithRole])
       rest"

text \<open>
  The service inside Node's event loop. Code between two \<open>await\<close>s runs without
  interruption, so a state of the loop is the dispatcher's fields together with what is
  suspended: the invocations of \<open>pollTasks\<close> waiting for \<open>queryAssignedTasks\<close>, the
  invocations of \<open>processNextTask\<close> between their first \<open>await\<close> and their \<open>finally\<close>
  block (the pipeline runs in flight), and the continuations scheduled by \<open>setTimeout\<close>.
\<close>

record eventloop =
  disp :: dispatcher
  polling :: nat
  running :: nat
  timers :: nat

definition initial :: eventloop where
  "initial = \<lparr>disp = \<lparr>isProcessingTask = False, taskQueue = []\<rparr>, polling = 0, running = 0, timers = 0\<rparr>"

text \<open>A call of \<open>processNextTask\<close> inside the loop: either it returns at once or a run starts.\<close>

definition processNextTask_enter :: "eventloop \<Rightarrow> eventloop" where
  "processNextTask_enter c =
     (case processNextTask_begin (disp c) of
        (None, d) \<Rightarrow> c
      | (Some taskWithRole, d) \<Rightarrow> c\<lparr>disp := d, running := running c + 1\<rparr>)"

text \<open>
  A call of \<open>pollTasks\<close> (from \<open>start\<close> or from the interval timer, whose callback tests the
  flag as well): it returns at the guard or suspends at \<open>queryAssignedTasks\<close>.
\<close>

definition pollTasks_enter :: "eventloop \<Rightarrow> eventloop" where
  "pollTasks_enter c = (if isProcessingTask (disp c) then c else c\<lparr>polling := polling c + 1\<rparr>)"

text \<open>A suspended \<open>pollTasks\<close> resumes with the tasks the ledger returned.\<close>

definition pollTasks_resume :: "TaskDataWithRole list \<Rightarrow> eventloop \<Rightarrow> eventloop" where
  "pollTasks_resume tasksWithRole c =
     (if polling c = 0 then c
      else
        let d = (disp c)\<lparr>taskQueue := enqueue (taskQueue (disp c)) tasksWithRole\<rparr>;
            c1 = c\<lparr>disp := d, polling := polling c - 1\<rparr>
        in if length (taskQueue d) > 0 \<and> \<not> isProcessingTask d then processNextTask_enter c1 else c1)"

text \<open>A pipeline run in flight reaches its \<open>finally\<close> block.\<close>

definition processNextTask_leave :: "eventloop \<Rightarrow> eventloop" where
  "processNextTask_leave c =
     (if running c = 0 then c
      else
        (case processNextTask_finally (disp c) of
           (d, scheduled) \<Rightarrow>
             c\<lparr>disp := d, running := running c - 1,
               timers := (if scheduled then timers c + 1 else timers c)\<rparr>))"

text \<open>A continuation scheduled by \<open>setTimeout\<close> fires.\<close>

definition timer_fire :: "eventloop \<Rightarrow> eventloop" where
  "timer_fire c =
     (if timers c = 0 then c else processNextTask_enter (c\<lparr>timers := timers c - 1\<rparr>))"

datatype event = Poll | QueryReturns "TaskDataWithRole list" | RunEnds | TimerFires

fun step :: "eventloop \<Rightarrow> event \<Rightarrow> eventloop" where
  "step c Poll = pollTasks_enter c"
| "step c (QueryReturns tasksWithRole) = pollTasks_resume tasksWithRole c"
| "step c RunEnds = processNextTask_leave c"
| "step c TimerFires = timer_fire c"

text \<open>The state of the loop after a sequence of events, from the freshly constructed service.\<close>

definition after :: "event list \<Rightarrow> eventloop" where
  "after events = foldl step initial events"

section \<open>Observations\<close>

text \<open>Notions that the properties below are stated with; none of them is part of the code.\<close>

text \<open>Member \<open>m\<close> acknowledged: one of the (at most two) POSTs to it was answered with 202.\<close>

definition accepted :: "error + response \<Rightarrow> bool" where
  "accepted r = (case r of Inr resp \<Rightarrow> status resp = 202 | Inl e \<Rightarrow> False)"

definition acknowledged :: "post_oracle \<Rightarrow> ApiProof \<Rightarrow> CommitteeMember \<Rightarrow> bool" where
  "acknowledged post body m = (accepted (post m body 0) \<or> accepted (post m body 1))"

text \<open>
  What a member answers to a status query within the two requests it is given: the body of
  the first request that comes back with status 200 and a body, if there is one.
\<close>

definition status_body :: "error + response \<Rightarrow> string option" where
  "status_body r = (case r of Inr resp \<Rightarrow> (if status resp = 200 then data resp else None) | Inl e \<Rightarrow> None)"

definition answers :: "get_oracle \<Rightarrow> string \<Rightarrow> CommitteeMember \<Rightarrow> string option" where
  "answers get taskId m =
     (case status_body (get taskId m 0) of Some p \<Rightarrow> Some p | None \<Rightarrow> status_body (get taskId m 1))"



text \<open>At most one pipeline run is in flight, and the busy flag is set exactly while one is.\<close>

definition single_flight :: "eventloop \<Rightarrow> bool" where
  "single_flight c = (running c \<le> 1 \<and> (isProcessingTask (disp c) \<longleftrightarrow> running c = 1))"

section \<open>Scenarios\<close>

text \<open>Concrete tasks and collaborators on which the properties below are exercised.\<close>

text \<open>A committee network in which \<open>follower3\<close> never answers and the others accept.\<close>

definition flaky :: post_oracle where
  "flaky m body k = (if account_id m = ''follower3'' then Inl (Error ''timeout'')
                else Inr \<lparr>status = 202, data = None\<rparr>)"

text \<open>The committee client as its constructor leaves it.\<close>

definition fresh :: CommitteeClient where
  "fresh = \<lparr>committeeMembers = [], lastMembersUpdateTime = 0\<rparr>"

text \<open>A clock that stands still, and three networks for the status query.\<close>

definition steady :: "nat \<Rightarrow> int" where
  "steady n = 1000"

definition leaderAnswers :: "nat \<Rightarrow> get_oracle" where
  "leaderAnswers n taskId m k =
     (if is_leader m then Inr \<lparr>status = 200, data = Some ''verified''\<rparr> else Inl (Error ''timeout''))"

definition followerAnswers :: "nat \<Rightarrow> get_oracle" where
  "followerAnswers n taskId m k =
     (if account_id m = ''follower2'' \<and> k = 1 then Inr \<lparr>status = 200, data = Some ''pending''\<rparr>
      else if account_id m = ''follower3'' then Inr \<lparr>status = 200, data = Some ''stale''\<rparr>
      else if account_id m = ''follower1'' then Inr \<lparr>status = 404, data = None\<rparr>
      else Inl (Error ''timeout''))"

definition nobodyAnswers :: "nat \<Rightarrow> get_oracle" where
  "nobodyAnswers n taskId m k = Inl (Error ''timeout'')"

text \<open>
  The end-to-end scenario: six markers, three of them selected, a media tool that writes
  every segment, a scorer that returns 92, 95 and 97 for the three selected samples, a
  ledger that accepts, and the committee network \<open>flaky\<close>.
\<close>

definition markers :: "string list" where
  "markers = [''0.000000'', ''1.200000'', ''2.266667'', ''3.466667'', ''5.133333'', ''9.133333'']"

definition selection :: "string list" where
  "selection = [''0.000000'', ''2.266667'', ''5.133333'']"

definition task7 :: TaskData where
  "task7 = \<lparr>task_id = ''task-7'', source_ipfs = ''QmSource'', result_ipfs = Some ''QmResult'',
             keyframe_timestamps = Some markers, selected_gops = Some selection\<rparr>"

definition segmentName :: "string \<Rightarrow> nat \<Rightarrow> string" where
  "segmentName video i = video @ ''/segment_'' @ replicate i (CHR ''i'')"

definition studio :: media_tool where
  "studio = \<lparr>segmentPath = segmentName,
              execSegment = (\<lambda>video timestamps.
                 Inr (\<lambda>p. p \<in> set (map (segmentName video) [0..<Suc (length timestamps)])))\<rparr>"

definition scorer :: "string \<Rightarrow> string \<Rightarrow> vmaf_run" where
  "scorer reference distorted =
     \<lparr>execAsync = Inr (), outputExists = True,
      parsedMean = Inr (Some (if distorted = segmentName ''temp/task-7-result.mp4'' 0 then 92
                              else if distorted = segmentName ''temp/task-7-result.mp4'' 2 then 95
                              else 97)),
      unlinkSync = Inr ()\<rparr>"

definition world :: environment where
  "world =
     \<lparr>verifierAccountId = ''verifier1.testnet'',
      downloadMediaFiles = (\<lambda>taskId sourceIpfs resultIpfs.
         Inr (''temp/'' @ taskId @ ''-source.mp4'', ''temp/'' @ taskId @ ''-result.mp4'')),
      mediaTool = studio,
      vmaf = scorer,
      calculateGopHash = (\<lambda>path. Inr (''sha256:'' @ path)),
      getVideoSpecifications = (\<lambda>path.
         Inr \<lparr>codec = ''h264'', resolution = ''1920x1080'', bitrate = 5000000, framerate = 30\<rparr>),
      dateNow = (\<lambda>n. 1000 + int n),
      generatePlaceholderSignature = ''18f0a00000verifier_placeholder_sig'',
      submitVerifierProof = (\<lambda>qosProof. True),
      committeePost = (\<lambda>n. flaky),
      supplementaryPost = (\<lambda>n taskId. flaky),
      cleanupAllGops = Inr ()\<rparr>"

definition idle :: VerifierService where
  "idle = \<lparr>isProcessingTask = False, taskQueue = [], committeeClient = fresh, effects = []\<rparr>"

text \<open>
  Variations of the scenario: a metric tool that fails, the maps and scores the scenario
  produces, a media tool whose command fails and one that writes no file, a ledger that
  rejects, a media tool that writes no segment of the candidate file, and a service with
  the scenario's task queued.
\<close>

definition broken :: "string \<Rightarrow> string \<Rightarrow> vmaf_run" where
  "broken reference distorted =
     \<lparr>execAsync = Inl (Error ''Command failed: ffmpeg''), outputExists = False,
      parsedMean = Inr None, unlinkSync = Inr ()\<rparr>"

definition sourceGops :: gop_map where
  "sourceGops =
     [(Some ''0.000000'', ''temp/task-7-source.mp4/segment_''),
      (Some ''1.200000'', ''temp/task-7-source.mp4/segment_i''),
      (Some ''2.266667'', ''temp/task-7-source.mp4/segment_ii''),
      (Some ''3.466667'', ''temp/task-7-source.mp4/segment_iii''),
      (Some ''5.133333'', ''temp/task-7-source.mp4/segment_iiii''),
      (Some ''9.133333'', ''temp/task-7-source.mp4/segment_iiiiii'')]"

definition resultGops :: gop_map where
  "resultGops =
     [(Some ''0.000000'', ''temp/task-7-result.mp4/segment_''),
      (Some ''1.200000'', ''temp/task-7-result.mp4/segment_i''),
      (Some ''2.266667'', ''temp/task-7-result.mp4/segment_ii''),
      (Some ''3.466667'', ''temp/task-7-result.mp4/segment_iii''),
      (Some ''5.133333'', ''temp/task-7-result.mp4/segment_iiii''),
      (Some ''9.133333'', ''temp/task-7-result.mp4/segment_iiiiii'')]"

definition recorded :: "GopScore list" where
  "recorded =
     [\<lparr>timestamp = ''0.000000'', vmaf_score = 82, hash = ''sha256:temp/task-7-result.mp4/segment_''\<rparr>,
      \<lparr>timestamp = ''2.266667'', vmaf_score = 85, hash = ''sha256:temp/task-7-result.mp4/segment_ii''\<rparr>,
      \<lparr>timestamp = ''5.133333'', vmaf_score = 87, hash = ''sha256:temp/task-7-result.mp4/segment_iiii''\<rparr>]"

definition proof7 :: VerifierQosProof where
  "proof7 =
     \<lparr>proof_id = ''proof-task-7-verifier1.testnet'', proof_task_id = ''task-7'',
      verifier_id = ''verifier1.testnet'', proof_timestamp = 1003,
      video_specs = \<lparr>codec = ''h264'', resolution = ''1920x1080'', bitrate = 5000000, framerate = 30\<rparr>,
      video_score = 254 / 3, gop_scores = recorded, audio_score = 4.3, sync_score = 0,
      signature = ''18f0a00000verifier_placeholder_sig'', isSupplementary = False\<rparr>"

definition refusing :: media_tool where
  "refusing = \<lparr>segmentPath = segmentName,
                execSegment = (\<lambda>video timestamps. Inl (Error ''Command failed: ffmpeg''))\<rparr>"

definition nothing :: "string \<Rightarrow> bool" where
  "nothing p = False"

definition silent :: media_tool where
  "silent = \<lparr>segmentPath = segmentName, execSegment = (\<lambda>video timestamps. Inr nothing)\<rparr>"

definition rejecting :: environment where
  "rejecting = world\<lparr>submitVerifierProof := (\<lambda>qosProof. False)\<rparr>"

definition candidateLost :: media_tool where
  "candidateLost =
     \<lparr>segmentPath = segmentName,
      execSegment = (\<lambda>video timestamps.
         Inr (\<lambda>p. p \<in> set (map (segmentName ''temp/task-7-source.mp4'') [0..<Suc (length timestamps)])))\<rparr>"

definition leaky :: environment where
  "leaky = world\<lparr>mediaTool := candidateLost\<rparr>"


text \<open>Two queue entries for the event loop.\<close>

definition primary7 :: TaskDataWithRole where
  "primary7 = \<lparr>task = task7, is_supplemental_verifier = False\<rparr>"

definition later8 :: TaskDataWithRole where
  "later8 = \<lparr>task = task7\<lparr>task_id := ''task-8''\<rparr>, is_supplemental_verifier = True\<rparr>"

section \<open>Properties\<close>

subsection \<open>Bounded retry\<close>

lemma withRetry_two:
  "withRetry operation 2 d s =
     (case operation 0 s of
        (Inr v, s') \<Rightarrow> (Inr v, s')
      | (Inl e, s') \<Rightarrow> (case operation 1 s' of (Inr v, s'') \<Rightarrow> (Inr v, s'') | (Inl e', s'') \<Rightarrow> (Inl e', s'')))"
  unfolding withRetry_def
  apply (subst withRetry_loop.simps)
  apply (subst withRetry_loop.simps)
  apply (simp split: prod.splits sum.splits)
  done

lemma updateCommitteeMembers_nonempty: "committeeMembers (updateCommitteeMembers now c) \<noteq> []"
  by (simp add: updateCommitteeMembers_def fixedMembers_def)

lemma fresh_members: "committeeMembers (updateCommitteeMembers 1000 fresh) = fixedMembers"
  by (simp add: updateCommitteeMembers_def fresh_def)

subsection \<open>Delivery to the committee\<close>

lemma sendProofToMember_eq: "sendProofToMember post m body = Inr (acknowledged post body m)"
  by (simp add: sendProofToMember_def withRetry_two catch_def sendProofToMember_operation_def
      acknowledged_def accepted_def split: sum.splits)

lemma successCount_results:
  "successCount (sendProofToCommittee_results post ms body) = length (filter (acknowledged post body) ms)"
  by (induction ms) (simp_all add: successCount_def sendProofToCommittee_results_def sendProofToMember_eq)

text \<open>
  C2. Let \<open>ms\<close> be the member list the call works on (the cached list after
  \<open>updateCommitteeMembers\<close>), of size at least 1. The settled results that
  \<open>sendProofToCommittee\<close> counts hold one outcome per member, and each one is the final
  outcome of that member's bounded retry: fulfilled with true when one of its two requests
  was answered 202, with false when both failed. The call returns true if and only if some
  member acknowledged, and then the number of successes is between 1 and the number of
  members.
\<close>

theorem sendProofToCommittee_quorum_of_one:
  assumes "ms = committeeMembers (updateCommitteeMembers now c)" and "1 \<le> length ms"
    and "body = convertToApiProofFormat qosProof"
  shows "length (sendProofToCommittee_results post ms body) = length ms
       \<and> (\<forall>i < length ms. sendProofToCommittee_results post ms body ! i
                              = Inr (acknowledged post body (ms ! i)))
       \<and> (fst (sendProofToCommittee now post qosProof c) \<longleftrightarrow> (\<exists>m \<in> set ms. acknowledged post body m))
       \<and> (fst (sendProofToCommittee now post qosProof c) \<longrightarrow>
            1 \<le> successCount (sendProofToCommittee_results post ms body)
          \<and> successCount (sendProofToCommittee_results post ms body) \<le> length ms)"
proof -
  have len: "length (sendProofToCommittee_results post ms body) = length ms"
    by (simp add: sendProofToCommittee_results_def)
  have each: "\<forall>i < length ms. sendProofToCommittee_results post ms body ! i
                                  = Inr (acknowledged post body (ms ! i))"
    by (simp add: sendProofToCommittee_results_def sendProofToMember_eq)
  have ret: "fst (sendProofToCommittee now post qosProof c)
               = (0 < successCount (sendProofToCommittee_results post ms body))"
    using assms(1,3) by (simp add: sendProofToCommittee_def Let_def successCount_results)
  have cnt: "(0 < successCount (sendProofToCommittee_results post ms body))
               = (\<exists>m \<in> set ms. acknowledged post body m)"
    by (simp add: successCount_results filter_empty_conv)
  have up: "successCount (sendProofToCommittee_results post ms body) \<le> length ms"
    by (simp add: successCount_results)
  show ?thesis using len each ret cnt up by auto
qed

text \<open>
  Four members, three of which answer 202 while one times out: the call returns true and
  counts three successes.
\<close>

theorem sendProofToCommittee_quorum_of_one_witness:
  "fixedMembers = committeeMembers (updateCommitteeMembers 1000 fresh) \<and> 1 \<le> length fixedMembers
   \<and> fst (sendProofToCommittee 1000 flaky proof7 fresh)
   \<and> successCount (sendProofToCommittee_results flaky fixedMembers (convertToApiProofFormat proof7)) = 3
   \<and> length (sendProofToCommittee_results flaky fixedMembers (convertToApiProofFormat proof7)) = 4"
proof -
  have a: "fixedMembers = committeeMembers (updateCommitteeMembers 1000 fresh)"
    by (simp add: fresh_members)
  have b: "1 \<le> length fixedMembers" by (simp add: fixedMembers_def)
  have ack: "acknowledged flaky (convertToApiProofFormat proof7) (hd fixedMembers)"
    by (simp add: acknowledged_def accepted_def flaky_def fixedMembers_def)
  have mem: "hd fixedMembers \<in> set fixedMembers" by (simp add: fixedMembers_def)
  have cnt: "successCount (sendProofToCommittee_results flaky fixedMembers (convertToApiProofFormat proof7)) = 3"
    by (simp add: successCount_results acknowledged_def accepted_def flaky_def fixedMembers_def)
  have four: "length fixedMembers = 4" by (simp add: fixedMembers_def)
  from sendProofToCommittee_quorum_of_one [OF a b refl, of flaky proof7] ack mem cnt a b four
  show ?thesis by auto
qed

subsection \<open>Status query\<close>

lemma getTaskStatusFromMember_eq: "getTaskStatusFromMember get m taskId = Inr (answers get taskId m)"
  by (simp add: getTaskStatusFromMember_def withRetry_two catch_def getTaskStatusFromMember_operation_def
      answers_def status_body_def split: sum.splits option.splits)

lemma followers_first:
  "k < length fs \<Longrightarrow> \<forall>j < k. answers get taskId (fs ! j) = None \<Longrightarrow> answers get taskId (fs ! k) = Some p
   \<Longrightarrow> getTaskStatus_followers get fs taskId = Some p"
proof (induction fs arbitrary: k)
  case Nil
  then show ?case by simp
next
  case (Cons f fs)
  show ?case
  proof (cases k)
    case 0
    with Cons.prems show ?thesis by (simp add: getTaskStatusFromMember_eq)
  next
    case (Suc k')
    from Cons.prems Suc have "answers get taskId f = None" by auto
    moreover from Cons.prems Suc have "getTaskStatus_followers get fs taskId = Some p"
      by (intro Cons.IH [of k']) auto
    ultimately show ?thesis by (simp add: getTaskStatusFromMember_eq)
  qed
qed

lemma followers_none:
  "\<forall>m \<in> set fs. answers get taskId m = None \<Longrightarrow> getTaskStatus_followers get fs taskId = None"
  by (induction fs) (simp_all add: getTaskStatusFromMember_eq)

lemma operation_leader:
  "find is_leader (committeeMembers (updateCommitteeMembers (clock n) c)) = Some l
   \<Longrightarrow> answers (get n) taskId l = Some p
   \<Longrightarrow> getTaskStatus_operation clock get taskId n c = (Inr (Some p), updateCommitteeMembers (clock n) c)"
  by (simp add: getTaskStatus_operation_def Let_def updateCommitteeMembers_nonempty getTaskStatusFromMember_eq)

lemma operation_follower:
  assumes "ms = committeeMembers (updateCommitteeMembers (clock n) c)"
    and "\<forall>l. find is_leader ms = Some l \<longrightarrow> answers (get n) taskId l = None"
    and "getTaskStatus_followers (get n) (filter (\<lambda>m. \<not> is_leader m) ms) taskId = Some p"
  shows "getTaskStatus_operation clock get taskId n c = (Inr (Some p), updateCommitteeMembers (clock n) c)"
  using assms
  by (cases "find is_leader ms")
     (simp_all add: getTaskStatus_operation_def Let_def updateCommitteeMembers_nonempty getTaskStatusFromMember_eq)

lemma find_in_set: "find P xs = Some x \<Longrightarrow> x \<in> set xs"
  by (induction xs) (auto split: if_splits)

lemma operation_fails:
  assumes "ms = committeeMembers (updateCommitteeMembers (clock n) c)"
    and "\<forall>m \<in> set ms. answers (get n) taskId m = None"
  shows "\<exists>e. getTaskStatus_operation clock get taskId n c = (Inl e, updateCommitteeMembers (clock n) c)"
proof -
  have fol: "getTaskStatus_followers (get n) (filter (\<lambda>m. \<not> is_leader m) ms) taskId = None"
    using assms(2) by (intro followers_none) auto
  show ?thesis
  proof (cases "find is_leader ms")
    case None
    with fol assms(1) show ?thesis
      by (simp add: getTaskStatus_operation_def Let_def updateCommitteeMembers_nonempty)
  next
    case (Some l)
    then have "answers (get n) taskId l = None" using assms(2) find_in_set by fastforce
    with Some fol assms(1) show ?thesis
      by (simp add: getTaskStatus_operation_def Let_def updateCommitteeMembers_nonempty getTaskStatusFromMember_eq)
  qed
qed

text \<open>
  C5. \<open>getTaskStatus\<close> asks the leader of the cached list first: when the leader answers
  (within its two requests), the leader's body is returned whatever the followers would
  say. When the leader's query fails (or the list has no leader) and the followers,
  taken in the order of the cached list, fail up to position \<open>k\<close> where one answers, the
  body of that follower is returned. When every member fails in both rounds of the outer
  retry, the call returns null (\<open>Inr None\<close>) and does not throw.
\<close>

theorem getTaskStatus_leader_first_then_followers:
  assumes c0: "c0 = updateCommitteeMembers (clock 0) c"
    and c1: "c1 = updateCommitteeMembers (clock 1) c0"
    and fs: "followers = filter (\<lambda>m. \<not> is_leader m) (committeeMembers c0)"
  shows "(\<forall>l p. find is_leader (committeeMembers c0) = Some l \<and> answers (get 0) taskId l = Some p
            \<longrightarrow> fst (getTaskStatus clock get taskId c) = Inr (Some p))
       \<and> (\<forall>k p. (\<forall>l. find is_leader (committeeMembers c0) = Some l \<longrightarrow> answers (get 0) taskId l = None)
              \<and> k < length followers
              \<and> (\<forall>j < k. answers (get 0) taskId (followers ! j) = None)
              \<and> answers (get 0) taskId (followers ! k) = Some p
            \<longrightarrow> fst (getTaskStatus clock get taskId c) = Inr (Some p))
       \<and> ((\<forall>m \<in> set (committeeMembers c0). answers (get 0) taskId m = None)
              \<and> (\<forall>m \<in> set (committeeMembers c1). answers (get 1) taskId m = None)
            \<longrightarrow> fst (getTaskStatus clock get taskId c) = Inr None)"
proof (intro conjI allI impI)
  fix l p
  assume "find is_leader (committeeMembers c0) = Some l \<and> answers (get 0) taskId l = Some p"
  then have "getTaskStatus_operation clock get taskId 0 c = (Inr (Some p), c0)"
    using c0 operation_leader by simp
  then show "fst (getTaskStatus clock get taskId c) = Inr (Some p)"
    by (simp add: getTaskStatus_def withRetry_two catch_def)
next
  fix k p
  assume h: "(\<forall>l. find is_leader (committeeMembers c0) = Some l \<longrightarrow> answers (get 0) taskId l = None)
              \<and> k < length followers
              \<and> (\<forall>j < k. answers (get 0) taskId (followers ! j) = None)
              \<and> answers (get 0) taskId (followers ! k) = Some p"
  then have "getTaskStatus_followers (get 0) followers taskId = Some p"
    by (intro followers_first [of k]) auto
  with h have "getTaskStatus_operation clock get taskId 0 c = (Inr (Some p), c0)"
    using c0 fs operation_follower [of "committeeMembers c0" clock 0 c get taskId p] by simp
  then show "fst (getTaskStatus clock get taskId c) = Inr (Some p)"
    by (simp add: getTaskStatus_def withRetry_two catch_def)
next
  assume h: "(\<forall>m \<in> set (committeeMembers c0). answers (get 0) taskId m = None)
              \<and> (\<forall>m \<in> set (committeeMembers c1). answers (get 1) taskId m = None)"
  obtain e0 where e0: "getTaskStatus_operation clock get taskId 0 c = (Inl e0, c0)"
    using h c0 operation_fails [of "committeeMembers c0" clock 0 c get taskId] by auto
  obtain e1 where e1: "getTaskStatus_operation clock get taskId 1 c0 = (Inl e1, c1)"
    using h c1 operation_fails [of "committeeMembers c1" clock 1 c0 get taskId] by auto
  show "fst (getTaskStatus clock get taskId c) = Inr None"
    using e0 e1 by (simp add: getTaskStatus_def withRetry_two catch_def)
qed

lemma steady_members: "committeeMembers (updateCommitteeMembers (steady n) fresh) = fixedMembers"
  by (simp add: updateCommitteeMembers_def fresh_def steady_def)

lemma steady_members_again:
  "committeeMembers (updateCommitteeMembers (steady n) (updateCommitteeMembers (steady k) fresh)) = fixedMembers"
  by (simp add: updateCommitteeMembers_def fresh_def steady_def)

text \<open>The leader answers; only the third member answers, on its second request; nobody answers.\<close>

theorem getTaskStatus_leader_first_then_followers_witness:
  "fst (getTaskStatus steady leaderAnswers ''task-1'' fresh) = Inr (Some ''verified'')
 \<and> fst (getTaskStatus steady followerAnswers ''task-1'' fresh) = Inr (Some ''pending'')
 \<and> fst (getTaskStatus steady nobodyAnswers ''task-1'' fresh) = Inr None"
proof (intro conjI)
  have lead: "find is_leader fixedMembers = Some (fixedMembers ! 0)"
    by (simp add: fixedMembers_def)
  have fol: "filter (\<lambda>m. \<not> is_leader m) fixedMembers = [fixedMembers ! 1, fixedMembers ! 2, fixedMembers ! 3]"
    by (simp add: fixedMembers_def)
  note inst = getTaskStatus_leader_first_then_followers [where clock = steady and c = fresh and taskId = "''task-1''" and get = leaderAnswers, OF refl refl refl,
      unfolded steady_members steady_members_again]
  have "answers (leaderAnswers 0) ''task-1'' (fixedMembers ! 0) = Some ''verified''"
    by (simp add: answers_def status_body_def leaderAnswers_def fixedMembers_def)
  with lead inst
  show "fst (getTaskStatus steady leaderAnswers ''task-1'' fresh) = Inr (Some ''verified'')"
    by blast
next
  have lead: "find is_leader fixedMembers = Some (fixedMembers ! 0)"
    by (simp add: fixedMembers_def)
  have fol: "filter (\<lambda>m. \<not> is_leader m) fixedMembers = [fixedMembers ! 1, fixedMembers ! 2, fixedMembers ! 3]"
    by (simp add: fixedMembers_def)
  note inst = getTaskStatus_leader_first_then_followers [where clock = steady and c = fresh and taskId = "''task-1''" and get = followerAnswers, OF refl refl refl,
      unfolded steady_members steady_members_again fol]
  have a0: "answers (followerAnswers 0) ''task-1'' (fixedMembers ! 0) = None"
    by (simp add: answers_def status_body_def followerAnswers_def fixedMembers_def)
  have a1: "answers (followerAnswers 0) ''task-1'' (fixedMembers ! 1) = None"
    by (simp add: answers_def status_body_def followerAnswers_def fixedMembers_def)
  have a2: "answers (followerAnswers 0) ''task-1'' (fixedMembers ! 2) = Some ''pending''"
    by (simp add: answers_def status_body_def followerAnswers_def fixedMembers_def)
  have "(\<forall>l. find is_leader fixedMembers = Some l \<longrightarrow> answers (followerAnswers 0) ''task-1'' l = None)
      \<and> (1::nat) < length [fixedMembers ! 1, fixedMembers ! 2, fixedMembers ! 3]
      \<and> (\<forall>j < (1::nat). answers (followerAnswers 0) ''task-1'' ([fixedMembers ! 1, fixedMembers ! 2, fixedMembers ! 3] ! j) = None)
      \<and> answers (followerAnswers 0) ''task-1'' ([fixedMembers ! 1, fixedMembers ! 2, fixedMembers ! 3] ! 1) = Some ''pending''"
    using lead a0 a1 a2 by simp
  with inst show "fst (getTaskStatus steady followerAnswers ''task-1'' fresh) = Inr (Some ''pending'')"
    by blast
next
  note inst = getTaskStatus_leader_first_then_followers [where clock = steady and c = fresh and taskId = "''task-1''" and get = nobodyAnswers, OF refl refl refl,
      unfolded steady_members steady_members_again]
  have "\<forall>n m. answers (nobodyAnswers n) ''task-1'' m = None"
    by (simp add: answers_def status_body_def nobodyAnswers_def)
  with inst show "fst (getTaskStatus steady nobodyAnswers ''task-1'' fresh) = Inr None"
    by blast
qed

subsection \<open>Segmentation\<close>

lemma keys_map_set: "fst ` set (map_set k v m) = insert k (fst ` set m)"
proof (induction m)
  case Nil
  then show ?case by simp
next
  case (Cons kv m)
  then show ?case by (cases kv) auto
qed

lemma distinct_map_set: "distinct (map fst m) \<Longrightarrow> distinct (map fst (map_set k v m))"
proof (induction m)
  case Nil
  then show ?case by simp
next
  case (Cons kv m)
  then show ?case
    using keys_map_set [of k v m] by (cases kv) (auto simp del: keys_map_set)
qed

lemma js_index_in_range: "i < length xs \<Longrightarrow> js_index xs (int i) = Some (xs ! i)"
  by (simp add: js_index_def)

lemma middle_keys:
  "\<forall>i \<in> set idxs. i < length timestamps \<Longrightarrow>
   fst ` set (splitVideoIntoGops_middle path ex timestamps idxs m) \<subseteq> Some ` set timestamps \<union> fst ` set m"
proof (induction idxs arbitrary: m)
  case Nil
  then show ?case by simp
next
  case (Cons i idxs)
  then have i: "js_index timestamps (int i) \<in> Some ` set timestamps"
    by (simp add: js_index_in_range)
  from Cons have "fst ` set (splitVideoIntoGops_middle path ex timestamps idxs
        (if ex (path i) then map_set (js_index timestamps (int i)) (path i) m else m))
      \<subseteq> Some ` set timestamps \<union> fst ` set (if ex (path i) then map_set (js_index timestamps (int i)) (path i) m else m)"
    by (intro Cons.IH) simp
  with i show ?case by (auto simp: keys_map_set split: if_splits)
qed

lemma middle_distinct:
  "distinct (map fst m) \<Longrightarrow> distinct (map fst (splitVideoIntoGops_middle path ex timestamps idxs m))"
  by (induction idxs arbitrary: m) (simp_all add: distinct_map_set)

text \<open>
  C8. For a non-empty list of timestamps, every key of the map that \<open>splitVideoIntoGops\<close>
  returns is an element of the list, and no key occurs twice: there is at most one
  segment entry per marker.
\<close>

theorem splitVideoIntoGops_keys:
  assumes "timestamps \<noteq> []"
    and "splitVideoIntoGops tool videoPath timestamps = Inr gopMap"
  shows "fst ` set gopMap \<subseteq> Some ` set timestamps \<and> distinct (map fst gopMap)"
proof -
  obtain ex where ex: "execSegment tool videoPath timestamps = Inr ex"
    using assms(2) by (auto simp: splitVideoIntoGops_def split: sum.splits)
  define path where "path = segmentPath tool videoPath"
  define m1 where "m1 = (if ex (path 0) then map_set (js_index timestamps 0) (path 0) [] else [])"
  define m2 where "m2 = splitVideoIntoGops_middle path ex timestamps [1..<length timestamps] m1"
  define m3 where "m3 = (if ex (path (length timestamps))
                         then map_set (js_index timestamps (int (length timestamps) - 1)) (path (length timestamps)) m2
                         else m2)"
  have res: "gopMap = m3"
    using assms(2) ex by (auto simp: splitVideoIntoGops_def Let_def m3_def m2_def m1_def path_def)
  have first: "js_index timestamps 0 \<in> Some ` set timestamps"
    using assms(1) js_index_in_range [of 0 timestamps] by simp
  have last: "js_index timestamps (int (length timestamps) - 1) \<in> Some ` set timestamps"
    using assms(1) js_index_in_range [of "length timestamps - 1" timestamps]
    by (simp add: of_nat_diff Suc_leI)
  have k1: "fst ` set m1 \<subseteq> Some ` set timestamps"
    using first by (cases "ex (path 0)") (simp_all add: m1_def)
  have k2: "fst ` set m2 \<subseteq> Some ` set timestamps"
    using middle_keys [of "[1..<length timestamps]" timestamps path ex m1] k1
    by (auto simp: m2_def)
  have k3: "fst ` set m3 \<subseteq> Some ` set timestamps"
    using k2 last by (cases "ex (path (length timestamps))") (simp_all add: m3_def keys_map_set)
  have d1: "distinct (map fst m1)" by (cases "ex (path 0)") (simp_all add: m1_def)
  have d2: "distinct (map fst m2)" unfolding m2_def using d1 by (rule middle_distinct)
  have d3: "distinct (map fst m3)"
    using d2 by (cases "ex (path (length timestamps))") (simp_all add: m3_def distinct_map_set)
  show ?thesis using res k3 d3 by simp
qed

text \<open>C8 on the six markers of the scenario.\<close>

theorem splitVideoIntoGops_keys_witness:
  "markers \<noteq> [] \<and> splitVideoIntoGops studio ''temp/task-7-source.mp4'' markers = Inr sourceGops
   \<and> fst ` set sourceGops \<subseteq> Some ` set markers \<and> distinct (map fst sourceGops)"
proof -
  have a: "markers \<noteq> []" by (simp add: markers_def)
  have b: "splitVideoIntoGops studio ''temp/task-7-source.mp4'' markers = Inr sourceGops"
    by code_simp
  from splitVideoIntoGops_keys [OF a b] a b show ?thesis by simp
qed

text \<open>
  C9 as stated fails: with no markers and a tool that writes \<open>segment_0\<close>, the map
  returned holds that file under the key \<open>undefined\<close>, which is what \<open>timestamps[0]\<close>
  and \<open>timestamps[-1]\<close> are for an empty array.
\<close>

theorem splitVideoIntoGops_no_markers_counterexample:
  "splitVideoIntoGops studio ''temp/task-7-result.mp4'' [] = Inr [(None, ''temp/task-7-result.mp4/segment_'')]
   \<and> splitVideoIntoGops studio ''temp/task-7-result.mp4'' [] \<noteq> Inr []"
  by (simp add: splitVideoIntoGops_def studio_def segmentName_def js_index_def)

text \<open>
  C9, as the code has it. With an empty list of timestamps \<open>splitVideoIntoGops\<close> runs the
  segment command all the same: it throws when the command fails, and it returns an empty
  map when the command succeeds and has written no file \<open>segment_0\<close>.
\<close>

theorem splitVideoIntoGops_no_markers:
  "(execSegment tool videoPath [] = Inl e \<longrightarrow> splitVideoIntoGops tool videoPath [] = Inl e)
   \<and> (execSegment tool videoPath [] = Inr existsSync \<and> \<not> existsSync (segmentPath tool videoPath 0)
        \<longrightarrow> splitVideoIntoGops tool videoPath [] = Inr [])"
  by (simp add: splitVideoIntoGops_def Let_def)

text \<open>C9 in the form above, on a tool whose command fails and on one that writes no file.\<close>

theorem splitVideoIntoGops_no_markers_witness:
  "execSegment refusing ''temp/task-7-source.mp4'' [] = Inl (Error ''Command failed: ffmpeg'')
   \<and> splitVideoIntoGops refusing ''temp/task-7-source.mp4'' [] = Inl (Error ''Command failed: ffmpeg'')
   \<and> execSegment silent ''temp/task-7-source.mp4'' [] = Inr nothing
   \<and> \<not> nothing (segmentPath silent ''temp/task-7-source.mp4'' 0)
   \<and> splitVideoIntoGops silent ''temp/task-7-source.mp4'' [] = Inr []"
proof -
  have a: "execSegment refusing ''temp/task-7-source.mp4'' [] = Inl (Error ''Command failed: ffmpeg'')"
    by (simp add: refusing_def)
  have b: "execSegment silent ''temp/task-7-source.mp4'' [] = Inr nothing
           \<and> \<not> nothing (segmentPath silent ''temp/task-7-source.mp4'' 0)"
    by (simp add: silent_def nothing_def)
  from splitVideoIntoGops_no_markers [of refusing "''temp/task-7-source.mp4''" "Error ''Command failed: ffmpeg''"] a
  have c: "splitVideoIntoGops refusing ''temp/task-7-source.mp4'' [] = Inl (Error ''Command failed: ffmpeg'')"
    by blast
  from splitVideoIntoGops_no_markers [of silent "''temp/task-7-source.mp4''" _ nothing] b
  have d: "splitVideoIntoGops silent ''temp/task-7-source.mp4'' [] = Inr []"
    by blast
  from a b c d show ?thesis by blast
qed

subsection \<open>The quality metric\<close>

text \<open>
  C7. When the command that computes the quality metric fails, \<open>calculateVmafScore\<close>
  resolves to the floor value 0; on no input does it reject, so the scoring loop of the
  pipeline is never left through an error of the metric tool.
\<close>

theorem calculateVmafScore_floor:
  "(execAsync (run referenceGopPath distortedGopPath) = Inl e
      \<longrightarrow> calculateVmafScore run referenceGopPath distortedGopPath = Inr 0)
   \<and> (\<forall>e'. calculateVmafScore run referenceGopPath distortedGopPath \<noteq> Inl e')"
  by (simp add: calculateVmafScore_def calculateVmafScore_try_def split: sum.splits)

text \<open>C7 on a metric tool whose command fails.\<close>

theorem calculateVmafScore_floor_witness:
  "execAsync (broken ''ref.mp4'' ''out.mp4'') = Inl (Error ''Command failed: ffmpeg'')
   \<and> calculateVmafScore broken ''ref.mp4'' ''out.mp4'' = Inr 0"
  using calculateVmafScore_floor [of broken "''ref.mp4''" "''out.mp4''" "Error ''Command failed: ffmpeg''"]
  by (simp add: broken_def)

subsection \<open>The pipeline, step by step\<close>

lemma deliver_result:
  "fst (verifyTask_deliver env p sp rp s) =
     (if submitVerifierProof env p
      then (case cleanupAllGops env of Inl e \<Rightarrow> Inl e | Inr u \<Rightarrow> Inr p)
      else Inl (Error ''submitting the verification result to the chain failed''))"
  by (simp add: verifyTask_deliver_def Let_def split: prod.splits sum.splits)


lemma assess_result:
  assumes "splitVideoIntoGops (mediaTool env) sp all = Inr sourceGopMap"
    and "splitVideoIntoGops (mediaTool env) rp all = Inr resultGopMap"
    and "scoreGops env sourceGopMap resultGopMap selected [] = Inr gopScores"
  shows "fst (verifyTask_assess env t selected all sp rp s) =
     (if gopScores = [] then Inl (Error ''no GOP was evaluated'')
      else (case getVideoSpecifications env rp of
              Inl e \<Rightarrow> Inl e
            | Inr videoSpecs \<Rightarrow>
                (let qosProof = makeProof env t (dateNow env (length (effects s) + 2)) videoSpecs gopScores
                 in if submitVerifierProof env qosProof
                    then (case cleanupAllGops env of Inl e \<Rightarrow> Inl e | Inr u \<Rightarrow> Inr qosProof)
                    else Inl (Error ''submitting the verification result to the chain failed''))))"
  using assms
  by (simp add: verifyTask_assess_def Let_def perform_def deliver_result split: sum.splits)


lemma try_result:
  assumes "source_ipfs t \<noteq> []" and "result_ipfs t = Some resultIpfs" and "resultIpfs \<noteq> []"
    and "selected_gops t = Some selected" and "selected \<noteq> []"
    and "downloadMediaFiles env (task_id t) (source_ipfs t) resultIpfs = Inr (sp, rp)"
  shows "verifyTask_try env t s =
     verifyTask_assess env t selected
       (ensureSelected (case keyframe_timestamps t of Some ts \<Rightarrow> ts | None \<Rightarrow> selected) selected)
       sp rp (perform (Downloaded sp rp) s)"
  using assms by (simp add: verifyTask_try_def Let_def)


lemma verifyTask_result:
  "fst (verifyTask env t s) = (case fst (verifyTask_try env t s) of Inl e \<Rightarrow> None | Inr p \<Rightarrow> Some p)"
  by (simp add: verifyTask_def split: prod.splits sum.splits)



lemma scoreGops_present:
  assumes "map_get sourceGopMap (Some g) = Some sp" and "sp \<noteq> []"
    and "map_get resultGopMap (Some g) = Some rp" and "rp \<noteq> []"
    and "calculateVmafScore (vmaf env) sp rp = Inr v" and "calculateGopHash env rp = Inr h"
  shows "scoreGops env sourceGopMap resultGopMap (g # rest) acc =
         scoreGops env sourceGopMap resultGopMap rest
           (acc @ [\<lparr>timestamp = g, vmaf_score = v - 10, hash = h\<rparr>])"
  using assms by simp

subsection \<open>The scenario\<close>

lemma task7_source: "source_ipfs task7 \<noteq> []"
  by (simp add: task7_def)

lemma task7_result: "result_ipfs task7 = Some ''QmResult''"
  by (simp add: task7_def)

lemma task7_selected: "selected_gops task7 = Some [''0.000000'', ''2.266667'', ''5.133333'']"
  by (simp add: task7_def selection_def)

lemma task7_download:
  "downloadMediaFiles world (task_id task7) (source_ipfs task7) ''QmResult''
     = Inr (''temp/task-7-source.mp4'', ''temp/task-7-result.mp4'')"
  by (simp add: world_def task7_def)

lemma task7_all:
  "markers = ensureSelected (case keyframe_timestamps task7 of Some ts \<Rightarrow> ts
                              | None \<Rightarrow> [''0.000000'', ''2.266667'', ''5.133333''])
               [''0.000000'', ''2.266667'', ''5.133333'']"
  by code_simp

lemma world_split_source:
  "splitVideoIntoGops (mediaTool world) ''temp/task-7-source.mp4'' markers = Inr sourceGops"
  by code_simp

lemma world_split_result:
  "splitVideoIntoGops (mediaTool world) ''temp/task-7-result.mp4'' markers = Inr resultGops"
  by code_simp

lemma world_specs:
  "getVideoSpecifications world ''temp/task-7-result.mp4''
     = Inr \<lparr>codec = ''h264'', resolution = ''1920x1080'', bitrate = 5000000, framerate = 30\<rparr>"
  by (simp add: world_def)

lemma world_accepts: "\<forall>qosProof. submitVerifierProof world qosProof"
  by (simp add: world_def)

lemma world_cleanup: "cleanupAllGops world = Inr ()"
  by (simp add: world_def)

lemma world_verified: "fst (verifyTask world task7 idle) = Some proof7"
  by code_simp

subsection \<open>The overall score\<close>

text \<open>
  C1 as stated fails: the scorer returns 92, 95 and 97, and the overall score of the proof
  is 254/3, which is not within 0.001 of 94.667.
\<close>

theorem verifyTask_overall_score_counterexample:
  "calculateVmafScore (vmaf world) ''temp/task-7-source.mp4/segment_'' ''temp/task-7-result.mp4/segment_'' = Inr 92
   \<and> calculateVmafScore (vmaf world) ''temp/task-7-source.mp4/segment_ii'' ''temp/task-7-result.mp4/segment_ii'' = Inr 95
   \<and> calculateVmafScore (vmaf world) ''temp/task-7-source.mp4/segment_iiii'' ''temp/task-7-result.mp4/segment_iiii'' = Inr 97
   \<and> map_option video_score (fst (verifyTask world task7 idle)) = Some (254 / 3)
   \<and> \<not> \<bar>(254 / 3 :: real) - 94.667\<bar> \<le> 0.001"
proof -
  have a: "calculateVmafScore (vmaf world) ''temp/task-7-source.mp4/segment_'' ''temp/task-7-result.mp4/segment_'' = Inr 92"
    by code_simp
  have b: "calculateVmafScore (vmaf world) ''temp/task-7-source.mp4/segment_ii'' ''temp/task-7-result.mp4/segment_ii'' = Inr 95"
    by code_simp
  have c: "calculateVmafScore (vmaf world) ''temp/task-7-source.mp4/segment_iiii'' ''temp/task-7-result.mp4/segment_iiii'' = Inr 97"
    by code_simp
  have d: "map_option video_score (fst (verifyTask world task7 idle)) = Some (254 / 3)"
    by code_simp
  have e: "\<not> \<bar>(254 / 3 :: real) - 94.667\<bar> \<le> 0.001" by simp
  from a b c d e show ?thesis by blast
qed

text \<open>
  C1, as the code has it. For a task with three selected markers, all extracted on both
  files, for which the scorer returns 92, 95 and 97, and whose later steps succeed
  (specification read, proof accepted by the ledger, cleanup), \<open>verifyTask\<close> returns a proof
  with three sample scores. Each recorded sample score is the scorer's value minus 10, and
  the overall score is the arithmetic mean of the recorded scores: 254/3, within 0.001
  of 84.667.
\<close>

theorem verifyTask_three_samples:
  assumes "source_ipfs t \<noteq> []" and "result_ipfs t = Some resultIpfs" and "resultIpfs \<noteq> []"
    and "selected_gops t = Some [g1, g2, g3]"
    and "downloadMediaFiles env (task_id t) (source_ipfs t) resultIpfs = Inr (sourcePath, resultPath)"
    and "allTimestamps = ensureSelected (case keyframe_timestamps t of Some ts \<Rightarrow> ts | None \<Rightarrow> [g1, g2, g3]) [g1, g2, g3]"
    and "splitVideoIntoGops (mediaTool env) sourcePath allTimestamps = Inr sourceGopMap"
    and "splitVideoIntoGops (mediaTool env) resultPath allTimestamps = Inr resultGopMap"
    and "map_get sourceGopMap (Some g1) = Some s1 \<and> s1 \<noteq> [] \<and> map_get resultGopMap (Some g1) = Some r1 \<and> r1 \<noteq> []"
    and "map_get sourceGopMap (Some g2) = Some s2 \<and> s2 \<noteq> [] \<and> map_get resultGopMap (Some g2) = Some r2 \<and> r2 \<noteq> []"
    and "map_get sourceGopMap (Some g3) = Some s3 \<and> s3 \<noteq> [] \<and> map_get resultGopMap (Some g3) = Some r3 \<and> r3 \<noteq> []"
    and "calculateVmafScore (vmaf env) s1 r1 = Inr 92"
    and "calculateVmafScore (vmaf env) s2 r2 = Inr 95"
    and "calculateVmafScore (vmaf env) s3 r3 = Inr 97"
    and "calculateGopHash env r1 = Inr h1" and "calculateGopHash env r2 = Inr h2"
    and "calculateGopHash env r3 = Inr h3"
    and "getVideoSpecifications env resultPath = Inr videoSpecs"
    and "\<forall>qosProof. submitVerifierProof env qosProof"
    and "cleanupAllGops env = Inr ()"
  shows "\<exists>qosProof. fst (verifyTask env t s) = Some qosProof
       \<and> length (gop_scores qosProof) = 3
       \<and> map vmaf_score (gop_scores qosProof) = [92 - 10, 95 - 10, 97 - 10]
       \<and> video_score qosProof = (82 + 85 + 87) / 3
       \<and> \<bar>video_score qosProof - 84.667\<bar> \<le> 0.001"
proof -
  define gopScores where "gopScores =
     [\<lparr>timestamp = g1, vmaf_score = 92 - 10, hash = h1\<rparr>,
      \<lparr>timestamp = g2, vmaf_score = 95 - 10, hash = h2\<rparr>,
      \<lparr>timestamp = g3, vmaf_score = 97 - 10, hash = h3\<rparr>]"
  have sc: "scoreGops env sourceGopMap resultGopMap [g1, g2, g3] [] = Inr gopScores"
    using assms(9-17) by (simp add: scoreGops_present gopScores_def)
  have tr: "verifyTask_try env t s =
      verifyTask_assess env t [g1, g2, g3] allTimestamps sourcePath resultPath
        (perform (Downloaded sourcePath resultPath) s)"
    using assms(1-6) try_result [of t resultIpfs "[g1, g2, g3]"] by simp
  note res = assess_result [OF assms(7,8) sc, of t "perform (Downloaded sourcePath resultPath) s"]
  define qosProof where "qosProof = makeProof env t
      (dateNow env (length (effects (perform (Downloaded sourcePath resultPath) s)) + 2)) videoSpecs gopScores"
  have ne: "gopScores \<noteq> []" by (simp add: gopScores_def)
  have ret: "fst (verifyTask env t s) = Some qosProof"
    using assms(18,19,20) ne by (simp add: verifyTask_result tr res Let_def qosProof_def)
  have scores: "gop_scores qosProof = gopScores" by (simp add: qosProof_def makeProof_def)
  have mean: "video_score qosProof = (82 + 85 + 87) / 3"
    by (simp add: qosProof_def makeProof_def overallVideoScore_def gopScores_def)
  have near: "\<bar>video_score qosProof - 84.667\<bar> \<le> 0.001"
    unfolding mean by simp
  from ret scores mean near show ?thesis by (auto simp: gopScores_def)
qed

text \<open>C1 in the form above, on the end-to-end scenario.\<close>

theorem verifyTask_three_samples_witness:
  "fst (verifyTask world task7 idle) = Some proof7
   \<and> length (gop_scores proof7) = 3
   \<and> map vmaf_score (gop_scores proof7) = [82, 85, 87]
   \<and> video_score proof7 = 254 / 3
   \<and> \<bar>video_score proof7 - 84.667\<bar> \<le> 0.001"
proof -
  have e1: "map_get sourceGops (Some ''0.000000'') = Some ''temp/task-7-source.mp4/segment_''
        \<and> ''temp/task-7-source.mp4/segment_'' \<noteq> []
        \<and> map_get resultGops (Some ''0.000000'') = Some ''temp/task-7-result.mp4/segment_''
        \<and> ''temp/task-7-result.mp4/segment_'' \<noteq> []"
    by code_simp
  have e2: "map_get sourceGops (Some ''2.266667'') = Some ''temp/task-7-source.mp4/segment_ii''
        \<and> ''temp/task-7-source.mp4/segment_ii'' \<noteq> []
        \<and> map_get resultGops (Some ''2.266667'') = Some ''temp/task-7-result.mp4/segment_ii''
        \<and> ''temp/task-7-result.mp4/segment_ii'' \<noteq> []"
    by code_simp
  have e3: "map_get sourceGops (Some ''5.133333'') = Some ''temp/task-7-source.mp4/segment_iiii''
        \<and> ''temp/task-7-source.mp4/segment_iiii'' \<noteq> []
        \<and> map_get resultGops (Some ''5.133333'') = Some ''temp/task-7-result.mp4/segment_iiii''
        \<and> ''temp/task-7-result.mp4/segment_iiii'' \<noteq> []"
    by code_simp
  have v1: "calculateVmafScore (vmaf world) ''temp/task-7-source.mp4/segment_'' ''temp/task-7-result.mp4/segment_'' = Inr 92"
    by code_simp
  have v2: "calculateVmafScore (vmaf world) ''temp/task-7-source.mp4/segment_ii'' ''temp/task-7-result.mp4/segment_ii'' = Inr 95"
    by code_simp
  have v3: "calculateVmafScore (vmaf world) ''temp/task-7-source.mp4/segment_iiii'' ''temp/task-7-result.mp4/segment_iiii'' = Inr 97"
    by code_simp
  have h1: "calculateGopHash world ''temp/task-7-result.mp4/segment_'' = Inr ''sha256:temp/task-7-result.mp4/segment_''"
    by (simp add: world_def)
  have h2: "calculateGopHash world ''temp/task-7-result.mp4/segment_ii'' = Inr ''sha256:temp/task-7-result.mp4/segment_ii''"
    by (simp add: world_def)
  have h3: "calculateGopHash world ''temp/task-7-result.mp4/segment_iiii'' = Inr ''sha256:temp/task-7-result.mp4/segment_iiii''"
    by (simp add: world_def)
  have ne: "''QmResult'' \<noteq> []" by simp
  from verifyTask_three_samples [OF task7_source task7_result ne task7_selected task7_download task7_all
      world_split_source world_split_result e1 e2 e3 v1 v2 v3 h1 h2 h3 world_specs world_accepts
      world_cleanup, of idle]
  show ?thesis by (auto simp: world_verified)
qed

subsection \<open>Skipped samples and tasks without a proof\<close>




subsection \<open>Cleanup\<close>

text \<open>
  C3 at two failing tasks. In the first the ledger does not accept the proof; in the second
  no segment of the candidate file exists, so that no sample is scored. Both times
  \<open>verifyTask\<close> returns null after the files were downloaded and split, and none of the
  three cleanup calls of step 11 has been made.
\<close>

theorem verifyTask_failure_keeps_files:
  "fst (verifyTask rejecting task7 idle) = None
   \<and> effects (snd (verifyTask rejecting task7 idle)) =
       [Downloaded ''temp/task-7-source.mp4'' ''temp/task-7-result.mp4'',
        SplitVideo ''temp/task-7-source.mp4'', SplitVideo ''temp/task-7-result.mp4'',
        SubmitVerifierProof proof7]
   \<and> fst (verifyTask leaky task7 idle) = None
   \<and> effects (snd (verifyTask leaky task7 idle)) =
       [Downloaded ''temp/task-7-source.mp4'' ''temp/task-7-result.mp4'',
        SplitVideo ''temp/task-7-source.mp4'', SplitVideo ''temp/task-7-result.mp4'']"
  by code_simp

subsection \<open>Delivery by the dispatcher\<close>





subsection \<open>Single flight\<close>

lemma enter_keeps: "single_flight c \<Longrightarrow> single_flight (processNextTask_enter c)"
  by (auto simp: single_flight_def processNextTask_enter_def processNextTask_begin_def
      split: list.splits)

lemma poll_keeps: "single_flight c \<Longrightarrow> single_flight (pollTasks_enter c)"
  by (simp add: single_flight_def pollTasks_enter_def)

lemma resume_keeps: "single_flight c \<Longrightarrow> single_flight (pollTasks_resume tasksWithRole c)"
proof -
  assume inv: "single_flight c"
  define c1 where "c1 = c\<lparr>disp := (disp c)\<lparr>taskQueue := enqueue (taskQueue (disp c)) tasksWithRole\<rparr>,
                           polling := polling c - 1\<rparr>"
  have "single_flight c1" using inv by (simp add: single_flight_def c1_def)
  then have "single_flight (processNextTask_enter c1)" by (rule enter_keeps)
  with \<open>single_flight c1\<close> inv show ?thesis
    by (simp add: pollTasks_resume_def Let_def c1_def)
qed

lemma leave_keeps: "single_flight c \<Longrightarrow> single_flight (processNextTask_leave c)"
  by (auto simp: single_flight_def processNextTask_leave_def processNextTask_finally_def Let_def)

lemma timer_keeps: "single_flight c \<Longrightarrow> single_flight (timer_fire c)"
proof -
  assume inv: "single_flight c"
  then have "single_flight (c\<lparr>timers := timers c - 1\<rparr>)" by (simp add: single_flight_def)
  then have "single_flight (processNextTask_enter (c\<lparr>timers := timers c - 1\<rparr>))" by (rule enter_keeps)
  with inv show ?thesis by (simp add: timer_fire_def)
qed

lemma step_keeps: "single_flight c \<Longrightarrow> single_flight (step c e)"
  by (cases e) (simp_all add: poll_keeps resume_keeps leave_keeps timer_keeps)

lemma after_single_flight: "single_flight (after events)"
proof (induction events rule: rev_induct)
  case Nil
  show ?case by (simp add: after_def initial_def single_flight_def)
next
  case (snoc e events)
  then show ?case by (simp add: after_def step_keeps)
qed

text \<open>
  C6. After any sequence of events of the loop, at most one pipeline run is in flight, and
  the busy flag is set exactly while one is. A call of \<open>pollTasks\<close> that arrives while
  the flag is set leaves the whole state as it is: no run is started and nothing is
  recorded for later. While a run is in flight a call of \<open>processNextTask\<close> returns at
  its guard, and neither a resuming poll nor a firing timer starts a second run.
\<close>

theorem at_most_one_run:
  "running (after events) \<le> 1
   \<and> (isProcessingTask (disp (after events)) \<longleftrightarrow> running (after events) = 1)
   \<and> (isProcessingTask (disp (after events)) \<longrightarrow> step (after events) Poll = after events)
   \<and> (running (after events) = 1 \<longrightarrow> processNextTask_enter (after events) = after events)
   \<and> (running (after events) = 1 \<longrightarrow>
        running (step (after events) (QueryReturns tasksWithRole)) = 1
      \<and> running (step (after events) TimerFires) = 1)"
proof -
  have inv: "single_flight (after events)" by (rule after_single_flight)
  have a: "running (after events) \<le> 1"
    and b: "isProcessingTask (disp (after events)) \<longleftrightarrow> running (after events) = 1"
    using inv by (simp_all add: single_flight_def)
  have c: "isProcessingTask (disp (after events)) \<longrightarrow> step (after events) Poll = after events"
    by (simp add: pollTasks_enter_def)
  have d: "running (after events) = 1 \<longrightarrow> processNextTask_enter (after events) = after events"
    using b by (simp add: processNextTask_enter_def processNextTask_begin_def)
  have busy_enter: "\<And>c. isProcessingTask (disp c) \<Longrightarrow> processNextTask_enter c = c"
    by (simp add: processNextTask_enter_def processNextTask_begin_def)
  have e: "running (after events) = 1 \<longrightarrow> running (step (after events) (QueryReturns tasksWithRole)) = 1"
    using b by (auto simp: pollTasks_resume_def Let_def)
  have f: "running (after events) = 1 \<longrightarrow> running (step (after events) TimerFires) = 1"
    using b by (auto simp: timer_fire_def busy_enter)
  from a b c d e f show ?thesis by blast
qed

text \<open>
  Two polls are suspended at once; the first to resume starts a run, the second only
  appends to the queue; a further poll and a further call of \<open>processNextTask\<close> change
  nothing.
\<close>

theorem at_most_one_run_witness:
  "isProcessingTask (disp (after [Poll, Poll, QueryReturns [primary7], QueryReturns [primary7, later8]]))
   \<and> running (after [Poll, Poll, QueryReturns [primary7], QueryReturns [primary7, later8]]) = 1
   \<and> taskQueue (disp (after [Poll, Poll, QueryReturns [primary7], QueryReturns [primary7, later8]])) = [primary7, later8]
   \<and> step (after [Poll, Poll, QueryReturns [primary7], QueryReturns [primary7, later8]]) Poll
        = after [Poll, Poll, QueryReturns [primary7], QueryReturns [primary7, later8]]
   \<and> processNextTask_enter (after [Poll, Poll, QueryReturns [primary7], QueryReturns [primary7, later8]])
        = after [Poll, Poll, QueryReturns [primary7], QueryReturns [primary7, later8]]"
proof -
  have busy: "isProcessingTask (disp (after [Poll, Poll, QueryReturns [primary7], QueryReturns [primary7, later8]]))"
    by code_simp
  have queue: "taskQueue (disp (after [Poll, Poll, QueryReturns [primary7], QueryReturns [primary7, later8]])) = [primary7, later8]"
    by code_simp
  from at_most_one_run [of "[Poll, Poll, QueryReturns [primary7], QueryReturns [primary7, later8]]"] busy queue
  show ?thesis by blast
qed

end
